theory Spec2Isabelle
  imports Main "HOL-Library.Word"
begin

unbundle bit_operations_syntax

section \<open>Errors, strings and bytes\<close>

text \<open>
  The exceptions the code can raise, as values: the \<open>HTTPException\<close> of the handlers
  with its status code and detail, the \<open>ValueError\<close> of an unpacking with the wrong number
  of parts, the \<open>AttributeError\<close> of calling \<open>split\<close> on a value that is no string, and
  the \<open>UnicodeEncodeError\<close> of \<open>str.encode\<close>.
\<close>

datatype error = HTTPException int string | ValueError | AttributeError | UnicodeEncodeError

text \<open>
  A Python \<open>str\<close> is a sequence of code points, numbers below \<open>0x110000\<close>. It may
  hold a lone surrogate (a code point from \<open>0xD800\<close> to \<open>0xDFFF\<close>): \<open>json.loads\<close>
  yields such strings, and \<open>str.encode("utf-8")\<close> raises UnicodeEncodeError on them.
  The literals of the source are ASCII; \<open>str_of\<close> gives the \<open>str\<close> of one.
\<close>

type_synonym byte = "8 word"
type_synonym w32 = "32 word"
type_synonym pystr = "nat list"

definition str_of :: "string \<Rightarrow> pystr" where
  "str_of s = map of_char s"

abbreviation dollar :: nat where
  "dollar \<equiv> 36"

definition is_surrogate :: "nat \<Rightarrow> bool" where
  "is_surrogate c = (0xD800 \<le> c \<and> c \<le> 0xDFFF)"

text \<open>The UTF-8 form of one code point: one to four bytes.\<close>

definition utf8_char :: "nat \<Rightarrow> byte list" where
  "utf8_char c =
     (if c < 0x80 then [of_nat c]
      else if c < 0x800 then [of_nat (0xC0 + c div 0x40), of_nat (0x80 + c mod 0x40)]
      else if c < 0x10000 then
        [of_nat (0xE0 + c div 0x1000), of_nat (0x80 + c div 0x40 mod 0x40),
         of_nat (0x80 + c mod 0x40)]
      else
        [of_nat (0xF0 + c div 0x40000), of_nat (0x80 + c div 0x1000 mod 0x40),
         of_nat (0x80 + c div 0x40 mod 0x40), of_nat (0x80 + c mod 0x40)])"

definition utf8_bytes :: "pystr \<Rightarrow> byte list" where
  "utf8_bytes s = concat (map utf8_char s)"

text \<open>\<open>s.encode("utf-8")\<close>: surrogates are not allowed.\<close>

definition encode_utf8 :: "pystr \<Rightarrow> error + byte list" where
  "encode_utf8 s = (if list_ex is_surrogate s then Inl UnicodeEncodeError else Inr (utf8_bytes s))"

section \<open>hashlib.sha256 (FIPS 180-4)\<close>

definition rotr :: "nat \<Rightarrow> w32 \<Rightarrow> w32" where
  "rotr n x = drop_bit n x OR push_bit (32 - n) x"

definition Ch :: "w32 \<Rightarrow> w32 \<Rightarrow> w32 \<Rightarrow> w32" where
  "Ch x y z = (x AND y) XOR (NOT x AND z)"

definition Maj :: "w32 \<Rightarrow> w32 \<Rightarrow> w32 \<Rightarrow> w32" where
  "Maj x y z = (x AND y) XOR (x AND z) XOR (y AND z)"

definition bsig0 :: "w32 \<Rightarrow> w32" where
  "bsig0 x = rotr 2 x XOR rotr 13 x XOR rotr 22 x"

definition bsig1 :: "w32 \<Rightarrow> w32" where
  "bsig1 x = rotr 6 x XOR rotr 11 x XOR rotr 25 x"

definition ssig0 :: "w32 \<Rightarrow> w32" where
  "ssig0 x = rotr 7 x XOR rotr 18 x XOR drop_bit 3 x"

definition ssig1 :: "w32 \<Rightarrow> w32" where
  "ssig1 x = rotr 17 x XOR rotr 19 x XOR drop_bit 10 x"

text \<open>The round constants, eight rounds to a row.\<close>

definition K256 :: "w32 list" where
  "K256 =
     [0x428a2f98, 0x71374491, 0xb5c0fbcf, 0xe9b5dba5, 0x3956c25b, 0x59f111f1, 0x923f82a4, 0xab1c5ed5]
     @ [0xd807aa98, 0x12835b01, 0x243185be, 0x550c7dc3, 0x72be5d74, 0x80deb1fe, 0x9bdc06a7, 0xc19bf174]
     @ [0xe49b69c1, 0xefbe4786, 0x0fc19dc6, 0x240ca1cc, 0x2de92c6f, 0x4a7484aa, 0x5cb0a9dc, 0x76f988da]
     @ [0x983e5152, 0xa831c66d, 0xb00327c8, 0xbf597fc7, 0xc6e00bf3, 0xd5a79147, 0x06ca6351, 0x14292967]
     @ [0x27b70a85, 0x2e1b2138, 0x4d2c6dfc, 0x53380d13, 0x650a7354, 0x766a0abb, 0x81c2c92e, 0x92722c85]
     @ [0xa2bfe8a1, 0xa81a664b, 0xc24b8b70, 0xc76c51a3, 0xd192e819, 0xd6990624, 0xf40e3585, 0x106aa070]
     @ [0x19a4c116, 0x1e376c08, 0x2748774c, 0x34b0bcb5, 0x391c0cb3, 0x4ed8aa4a, 0x5b9cca4f, 0x682e6ff3]
     @ [0x748f82ee, 0x78a5636f, 0x84c87814, 0x8cc70208, 0x90befffa, 0xa4506ceb, 0xbef9a3f7, 0xc67178f2]"

record hstate =
  va :: w32
  vb :: w32
  vc :: w32
  vd :: w32
  ve :: w32
  vf :: w32
  vg :: w32
  vh :: w32

definition H0 :: hstate where
  "H0 = \<lparr>va = 0x6a09e667, vb = 0xbb67ae85, vc = 0x3c6ef372, vd = 0xa54ff53a,
         ve = 0x510e527f, vf = 0x9b05688c, vg = 0x1f83d9ab, vh = 0x5be0cd19\<rparr>"

definition word32_bytes :: "w32 \<Rightarrow> byte list" where
  "word32_bytes w = [ucast (drop_bit 24 w), ucast (drop_bit 16 w), ucast (drop_bit 8 w), ucast w]"

definition word64_bytes :: "64 word \<Rightarrow> byte list" where
  "word64_bytes w =
     [ucast (drop_bit 56 w), ucast (drop_bit 48 w), ucast (drop_bit 40 w), ucast (drop_bit 32 w),
      ucast (drop_bit 24 w), ucast (drop_bit 16 w), ucast (drop_bit 8 w), ucast w]"

text \<open>Padding: the byte 0x80, zeros up to 56 modulo 64, and the bit length in 64 bits.\<close>

definition pad :: "byte list \<Rightarrow> byte list" where
  "pad msg = msg @ [0x80] @ replicate ((64 - (length msg + 9) mod 64) mod 64) 0
             @ word64_bytes (8 * of_nat (length msg))"

fun blocks :: "nat \<Rightarrow> byte list \<Rightarrow> byte list list" where
  "blocks 0 bs = []"
| "blocks (Suc k) bs = take 64 bs # blocks k (drop 64 bs)"

definition be_word :: "byte list \<Rightarrow> w32" where
  "be_word bs = foldl (\<lambda>acc b. push_bit 8 acc OR ucast b) 0 bs"

fun block_words :: "nat \<Rightarrow> byte list \<Rightarrow> w32 list" where
  "block_words 0 bs = []"
| "block_words (Suc k) bs = be_word (take 4 bs) # block_words k (drop 4 bs)"

fun schedule :: "nat \<Rightarrow> w32 list \<Rightarrow> w32 list" where
  "schedule 0 w = w"
| "schedule (Suc n) w =
     (let t = length w
      in schedule n
           (w @ [ssig1 (w ! (t - 2)) + w ! (t - 7) + ssig0 (w ! (t - 15)) + w ! (t - 16)]))"

definition round_step :: "hstate \<Rightarrow> w32 \<times> w32 \<Rightarrow> hstate" where
  "round_step s kw =
     (let t1 = vh s + bsig1 (ve s) + Ch (ve s) (vf s) (vg s) + fst kw + snd kw;
          t2 = bsig0 (va s) + Maj (va s) (vb s) (vc s)
      in \<lparr>va = t1 + t2, vb = va s, vc = vb s, vd = vc s,
          ve = vd s + t1, vf = ve s, vg = vf s, vh = vg s\<rparr>)"

definition compress :: "hstate \<Rightarrow> byte list \<Rightarrow> hstate" where
  "compress h blk =
     (let s = foldl round_step h (zip K256 (schedule 48 (block_words 16 blk)))
      in \<lparr>va = va h + va s, vb = vb h + vb s, vc = vc h + vc s, vd = vd h + vd s,
          ve = ve h + ve s, vf = vf h + vf s, vg = vg h + vg s, vh = vh h + vh s\<rparr>)"

definition sha256 :: "byte list \<Rightarrow> byte list" where
  "sha256 msg =
     (let p = pad msg; h = foldl compress H0 (blocks (length p div 64) p)
      in concat (map word32_bytes [va h, vb h, vc h, vd h, ve h, vf h, vg h, vh h]))"

text \<open>\<open>binascii.hexlify\<close>: two lower-case hexadecimal digits for each byte.\<close>

definition hex_digit :: "nat \<Rightarrow> char" where
  "hex_digit n = ''0123456789abcdef'' ! (n mod 16)"

definition hexlify :: "byte list \<Rightarrow> string" where
  "hexlify bs = concat (map (\<lambda>b. [hex_digit (unat b div 16), hex_digit (unat b mod 16)]) bs)"

text \<open>\<open>hashlib.sha256(data).hexdigest()\<close>: a \<open>str\<close> of 64 hexadecimal digits.\<close>

definition sha256_hexdigest :: "byte list \<Rightarrow> pystr" where
  "sha256_hexdigest data = str_of (hexlify (sha256 data))"

section \<open>The process environment: random source, clock, document store\<close>

text \<open>
  Values a document field holds: strings, booleans, \<open>datetime\<close> values (as a count of
  microseconds) and the identifiers the store generates. The keys of a document and the
  names of the collections are the ASCII literals of the source.
\<close>

datatype pyval = Str pystr | Bool bool | Datetime nat | Ident nat

type_synonym document = "string \<rightharpoonup> pyval"

text \<open>
  The state a request handler runs in: \<open>urandom\<close> is the sequence of bytes the operating
  system's random source hands out and \<open>drawn\<close> how many of them have been consumed;
  \<open>clock\<close> is the reading \<open>datetime.utcnow()\<close> returns; \<open>collections\<close> maps a
  collection name to its documents in insertion order, and \<open>next_id\<close> numbers the
  documents created so far.
\<close>

record world =
  urandom :: "nat \<Rightarrow> byte"
  drawn :: nat
  clock :: nat
  collections :: "string \<Rightarrow> document list"
  next_id :: nat

section \<open>The secrets module\<close>

definition token_bytes :: "nat \<Rightarrow> world \<Rightarrow> byte list \<times> world" where
  "token_bytes nbytes w =
     (map (urandom w) [drawn w ..< drawn w + nbytes], w\<lparr>drawn := drawn w + nbytes\<rparr>)"

definition token_hex :: "nat \<Rightarrow> world \<Rightarrow> pystr \<times> world" where
  "token_hex nbytes w = (let (bs, w') = token_bytes nbytes w in (str_of (hexlify bs), w'))"

definition b64_digit :: "nat \<Rightarrow> char" where
  "b64_digit n =
     ''ABCDEFGHIJKLMNOPQRSTUVWXYZabcdefghijklmnopqrstuvwxyz0123456789-_'' ! (n mod 64)"

fun urlsafe_b64encode :: "byte list \<Rightarrow> string" where
  "urlsafe_b64encode [] = []"
| "urlsafe_b64encode [a] =
     [b64_digit (unat a div 4), b64_digit (unat a mod 4 * 16), CHR ''='', CHR ''='']"
| "urlsafe_b64encode [a, b] =
     [b64_digit (unat a div 4), b64_digit (unat a mod 4 * 16 + unat b div 16),
      b64_digit (unat b mod 16 * 4), CHR ''='']"
| "urlsafe_b64encode (a # b # c # rest) =
     [b64_digit (unat a div 4), b64_digit (unat a mod 4 * 16 + unat b div 16),
      b64_digit (unat b mod 16 * 4 + unat c div 64), b64_digit (unat c mod 64)]
     @ urlsafe_b64encode rest"

definition rstrip :: "char \<Rightarrow> string \<Rightarrow> string" where
  "rstrip c s = rev (dropWhile (\<lambda>x. x = c) (rev s))"

definition token_urlsafe :: "nat \<Rightarrow> world \<Rightarrow> pystr \<times> world" where
  "token_urlsafe nbytes w =
     (let (bs, w') = token_bytes nbytes w
      in (str_of (rstrip CHR ''='' (urlsafe_b64encode bs)), w'))"

definition utcnow :: "world \<Rightarrow> pyval" where
  "utcnow w = Datetime (clock w)"

section \<open>Utility helpers\<close>

text \<open>\<open>s.split(sep)\<close> for a separator of one character: one part more than separators.\<close>

fun split_str :: "'a \<Rightarrow> 'a list \<Rightarrow> 'a list list" where
  "split_str sep [] = [[]]"
| "split_str sep (c # cs) =
     (if c = sep then [] # split_str sep cs
      else (case split_str sep cs of [] \<Rightarrow> [[c]] | p # ps \<Rightarrow> (c # p) # ps))"

text \<open>The assignment \<open>salt, digest = parts\<close>: ValueError unless there are two parts.\<close>

definition unpack2 :: "pystr list \<Rightarrow> error + pystr \<times> pystr" where
  "unpack2 parts = (case parts of [a, b] \<Rightarrow> Inr (a, b) | _ \<Rightarrow> Inl ValueError)"

text \<open>
  \<open>salt or secrets.token_hex(16)\<close>: \<open>None\<close> and the empty string are both falsy, and only
  then is the random source read. The encoding comes after it and is not guarded: its
  error leaves \<open>hash_password\<close> with the random bytes already consumed.
\<close>

definition hash_password :: "pystr \<Rightarrow> pystr option \<Rightarrow> world \<Rightarrow> (error + pystr) \<times> world" where
  "hash_password password salt w =
     (let (salt', w') = (case salt of
                           None \<Rightarrow> token_hex 16 w
                         | Some s \<Rightarrow> if s \<noteq> [] then (s, w) else token_hex 16 w)
      in case encode_utf8 (salt' @ password) of
           Inl e \<Rightarrow> (Inl e, w')
         | Inr data \<Rightarrow>
             (let hashed = sha256_hexdigest data
              in (Inr (salt' @ str_of ''$'' @ hashed), w')))"

text \<open>
  In \<open>verify_password\<close> only the split and the unpacking are inside the \<open>try\<close>; the
  encoding of the last line is outside, and its error is raised to the caller.
\<close>

definition verify_password :: "pystr \<Rightarrow> pystr \<Rightarrow> error + bool" where
  "verify_password password stored =
     (case unpack2 (split_str dollar stored) of
        Inl ValueError \<Rightarrow> Inr False
      | Inl e \<Rightarrow> Inl e
      | Inr (salt, digest) \<Rightarrow>
          (case encode_utf8 (salt @ password) of
             Inl e \<Rightarrow> Inl e
           | Inr data \<Rightarrow> Inr (sha256_hexdigest data = digest)))"

section \<open>The document store\<close>

text \<open>\<open>d.get(key, default)\<close> on a dictionary.\<close>

definition dict_get :: "document \<Rightarrow> string \<Rightarrow> pyval \<Rightarrow> pyval" where
  "dict_get d k dflt = (case d k of None \<Rightarrow> dflt | Some v \<Rightarrow> v)"

text \<open>A document matches an equality filter when it holds every pair of the filter.\<close>

definition matches :: "(string \<times> pyval) list \<Rightarrow> document \<Rightarrow> bool" where
  "matches flt d = list_all (\<lambda>(k, v). d k = Some v) flt"

text \<open>
  Modelled from the spec: the module \<open>database\<close> that \<open>main.py\<close> imports
  \<open>get_documents\<close> from is not among the sources. The spec's interface section gives
  \<open>get_documents(collection_name, filter, limit)\<close> as returning up to \<open>limit\<close> records
  matching an equality filter, in insertion order.
\<close>

definition get_documents ::
  "string \<Rightarrow> (string \<times> pyval) list \<Rightarrow> nat \<Rightarrow> world \<Rightarrow> document list" where
  "get_documents collection_name flt limit w =
     take limit (filter (matches flt) (collections w collection_name))"

text \<open>
  Modelled from the spec: the module \<open>database\<close> that \<open>main.py\<close> imports
  \<open>create_document\<close> from is not among the sources. The spec's interface section gives
  \<open>create_document(collection_name, record)\<close> as inserting the record into the named
  collection and returning a unique identifier. The store keeps the record as it is at
  the call: what the caller does to its dictionary afterwards is not seen by the store.
\<close>

definition create_document :: "string \<Rightarrow> document \<Rightarrow> world \<Rightarrow> pyval \<times> world" where
  "create_document collection_name rec w =
     (Ident (next_id w),
      w\<lparr>collections := (collections w)(collection_name := collections w collection_name @ [rec]),
        next_id := Suc (next_id w)\<rparr>)"

section \<open>Request and response models\<close>

record signup_request =
  name :: pystr
  email :: pystr
  password :: pystr

record login_request =
  email :: pystr
  password :: pystr

record auth_response =
  user :: document
  token :: pystr

section \<open>Auth endpoints\<close>

text \<open>
  An error of \<open>hash_password\<close> is not caught in \<open>signup\<close>: the request ends with it,
  before anything is stored.
\<close>

definition signup :: "signup_request \<Rightarrow> world \<Rightarrow> (error + auth_response) \<times> world" where
  "signup payload w =
     (let existing = get_documents ''user'' [(''email'', Str (signup_request.email payload))] 1 w
      in if existing \<noteq> [] then (Inl (HTTPException 400 ''Email already registered''), w)
         else
           (let (hashed, w1) = hash_password (signup_request.password payload) None w
            in case hashed of
                 Inl e \<Rightarrow> (Inl e, w1)
               | Inr pwd_hash \<Rightarrow>
                   (let user_doc = [''name'' \<mapsto> Str (signup_request.name payload),
                                    ''email'' \<mapsto> Str (signup_request.email payload),
                                    ''password_hash'' \<mapsto> Str pwd_hash,
                                    ''is_active'' \<mapsto> Bool True,
                                    ''created_at'' \<mapsto> utcnow w1];
                        (ident, w2) = create_document ''user'' user_doc w1;
                        (tok, w3) = token_urlsafe 24 w2;
                        user_doc1 = user_doc(''_id'' \<mapsto> ident);
                        user_doc2 = user_doc1(''password_hash'' := None)
                    in (Inr \<lparr>user = user_doc2, token = tok\<rparr>, w3))))"

text \<open>
  In \<open>login\<close> the stored credential is \<open>user.get("password_hash", "")\<close>; a value that is
  not a string has no \<open>split\<close>, and the call raises AttributeError. An error of
  \<open>verify_password\<close> is not caught either.
\<close>

definition login :: "login_request \<Rightarrow> world \<Rightarrow> (error + auth_response) \<times> world" where
  "login payload w =
     (let users = get_documents ''user'' [(''email'', Str (login_request.email payload))] 1 w
      in case users of
           [] \<Rightarrow> (Inl (HTTPException 401 ''Invalid credentials''), w)
         | usr # _ \<Rightarrow>
             (case (case dict_get usr ''password_hash'' (Str []) of
                      Str stored \<Rightarrow> verify_password (login_request.password payload) stored
                    | _ \<Rightarrow> Inl AttributeError) of
                Inl e \<Rightarrow> (Inl e, w)
              | Inr ok \<Rightarrow>
                  if \<not> ok then (Inl (HTTPException 401 ''Invalid credentials''), w)
                  else
                    (let (tok, w1) = token_urlsafe 24 w;
                         user_sanitized = (\<lambda>k. if k \<noteq> ''password_hash'' then usr k else None)
                     in (Inr \<lparr>user = user_sanitized, token = tok\<rparr>, w1))))"

text \<open>
  The dictionary \<open>user_doc\<close> that \<open>signup\<close> builds and hands to \<open>create_document\<close>,
  given the credential string \<open>pwd_hash\<close> and the world the request starts in.
\<close>

definition user_record :: "signup_request \<Rightarrow> pystr \<Rightarrow> world \<Rightarrow> document" where
  "user_record payload pwd_hash w =
     [''name'' \<mapsto> Str (signup_request.name payload),
      ''email'' \<mapsto> Str (signup_request.email payload),
      ''password_hash'' \<mapsto> Str pwd_hash,
      ''is_active'' \<mapsto> Bool True,
      ''created_at'' \<mapsto> utcnow w]"

section \<open>Concrete inputs\<close>

text \<open>
  A world with an empty store, a signup request and the login request with the same
  credentials; the instances below are stated on them.
\<close>

definition world0 :: world where
  "world0 = \<lparr>urandom = (\<lambda>i. of_nat (7 * i + 3)), drawn = 0, clock = 1700000000,
              collections = (\<lambda>_. []), next_id = 0\<rparr>"

definition signup0 :: signup_request where
  "signup0 = \<lparr>signup_request.name = str_of ''Ann'', email = str_of ''a@b.com'',
               password = str_of ''hunter2''\<rparr>"

definition login0 :: login_request where
  "login0 = \<lparr>login_request.email = str_of ''a@b.com'', password = str_of ''hunter2''\<rparr>"

text \<open>
  A world whose one user record holds a credential string that no password verifies
  against: its digest part is too short to be a SHA-256 digest.
\<close>

definition world_short_digest :: world where
  "world_short_digest =
     world0\<lparr>collections := (\<lambda>_. [])(''user'' :=
       [[''email'' \<mapsto> Str (str_of ''a@b.com''),
         ''password_hash'' \<mapsto> Str (str_of ''00ff$0123abcd'')]])\<rparr>"

text \<open>The string of one lone surrogate, \<open>"\ud800"\<close> in Python.\<close>

definition lone_surrogate :: pystr where
  "lone_surrogate = [0xD800]"

text \<open>The credential string that \<open>hash_password\<close> derives for \<open>hunter2\<close> in \<open>world0\<close>.\<close>

definition cred0 :: pystr where
  "cred0 = fst (token_hex 16 world0) @ dollar #
        sha256_hexdigest (utf8_bytes (fst (token_hex 16 world0) @ str_of ''hunter2''))"

section \<open>Strings, hex digits, digests and splitting\<close>

lemma str_of_append: "str_of (a @ b) = str_of a @ str_of b"
  by (simp add: str_of_def)

lemma str_of_dollar: "str_of ''$'' = [dollar]"
  by (simp add: str_of_def)

lemma length_str_of: "length (str_of s) = length s"
  by (simp add: str_of_def)

lemma of_char_dollar: "(of_char c :: nat) = dollar \<longleftrightarrow> c = CHR ''$''"
proof -
  have "(of_char (CHR ''$'') :: nat) = dollar" by simp
  then show ?thesis
    by (metis of_char_eq_iff)
qed

lemma dollar_in_str_of: "dollar \<in> set (str_of s) \<longleftrightarrow> CHR ''$'' \<in> set s"
  unfolding str_of_def set_map image_iff
  by (metis of_char_dollar)

lemma no_surrogate_str_of: "\<not> list_ex is_surrogate (str_of s)"
proof -
  have "\<not> is_surrogate (of_char c)" for c
  proof -
    have "(of_char c :: nat) < 256" by simp
    then show ?thesis unfolding is_surrogate_def by linarith
  qed
  then show ?thesis
    by (simp add: str_of_def list_ex_iff)
qed

lemma hex_digit_mem: "hex_digit n \<in> set ''0123456789abcdef''"
  unfolding hex_digit_def by (rule nth_mem) simp

lemma hex_digit_not_dollar: "hex_digit n \<noteq> CHR ''$''"
  using hex_digit_mem [of n] by auto

lemma dollar_notin_hexlify: "CHR ''$'' \<notin> set (hexlify bs)"
  by (induction bs) (simp_all add: hexlify_def hex_digit_not_dollar [symmetric])

lemma length_hexlify: "length (hexlify bs) = 2 * length bs"
  by (induction bs) (simp_all add: hexlify_def)

lemma length_sha256: "length (sha256 msg) = 32"
  by (simp add: sha256_def Let_def word32_bytes_def)

lemma length_sha256_hexdigest: "length (sha256_hexdigest data) = 64"
  by (simp add: sha256_hexdigest_def length_str_of length_hexlify length_sha256)

lemma dollar_notin_hexdigest: "dollar \<notin> set (sha256_hexdigest data)"
  by (simp add: sha256_hexdigest_def dollar_in_str_of dollar_notin_hexlify)

lemma digest_length_mismatch:
  "length digest \<noteq> 64 \<Longrightarrow> sha256_hexdigest data \<noteq> digest"
  using length_sha256_hexdigest [of data] by auto

lemma split_str_nonempty: "split_str sep s \<noteq> []"
  by (induction s) (auto split: list.splits)

lemma length_split_str: "length (split_str sep s) = Suc (count_list s sep)"
  by (induction s) (auto split: list.splits simp: split_str_nonempty)

lemma split_str_no_sep: "sep \<notin> set s \<Longrightarrow> split_str sep s = [s]"
  by (induction s) auto

lemma split_str_append: "sep \<notin> set a \<Longrightarrow> split_str sep (a @ sep # b) = a # split_str sep b"
  by (induction a) auto

lemma split_credential:
  "dollar \<notin> set salt \<Longrightarrow>
   split_str dollar (salt @ dollar # sha256_hexdigest data) = [salt, sha256_hexdigest data]"
  by (simp add: split_str_append split_str_no_sep dollar_notin_hexdigest)

lemma encode_utf8_Inr: "\<not> list_ex is_surrogate s \<Longrightarrow> encode_utf8 s = Inr (utf8_bytes s)"
  by (simp add: encode_utf8_def)

lemma encode_utf8_Inl: "list_ex is_surrogate s \<Longrightarrow> encode_utf8 s = Inl UnicodeEncodeError"
  by (simp add: encode_utf8_def)

lemma list_ex_append: "list_ex P (a @ b) \<longleftrightarrow> list_ex P a \<or> list_ex P b"
  by (auto simp: list_ex_iff)

lemma verify_two_parts:
  "dollar \<notin> set salt \<Longrightarrow>
   verify_password p (salt @ dollar # sha256_hexdigest data) =
   (case encode_utf8 (salt @ p) of
      Inl e \<Rightarrow> Inl e
    | Inr bs \<Rightarrow> Inr (sha256_hexdigest bs = sha256_hexdigest data))"
  by (simp add: verify_password_def split_credential unpack2_def)

lemma verify_malformed:
  "length (split_str dollar stored) \<noteq> 2 \<Longrightarrow> verify_password p stored = Inr False"
  by (auto simp: verify_password_def unpack2_def split: list.splits)

lemma token_hex_no_dollar: "dollar \<notin> set (fst (token_hex n w))"
  by (simp add: token_hex_def token_bytes_def dollar_in_str_of dollar_notin_hexlify)

lemma token_hex_no_surrogate: "\<not> list_ex is_surrogate (fst (token_hex n w))"
  by (simp add: token_hex_def token_bytes_def no_surrogate_str_of)

lemma length_token_hex: "length (fst (token_hex n w)) = 2 * n"
  by (simp add: token_hex_def token_bytes_def length_str_of length_hexlify)

lemma snd_token_hex: "snd (token_hex n w) = w\<lparr>drawn := drawn w + n\<rparr>"
  by (simp add: token_hex_def token_bytes_def)

lemma str_of_inject: "str_of a = str_of b \<longleftrightarrow> a = b"
  unfolding str_of_def by (rule inj_map_eq_map [OF inj_of_char])

section \<open>What the two helpers return\<close>

lemma hash_password_empty_salt: "hash_password p (Some []) w = hash_password p None w"
  by (simp add: hash_password_def)

lemma hash_password_None:
  "hash_password p None w =
   (if list_ex is_surrogate p then Inl UnicodeEncodeError
    else Inr (fst (token_hex 16 w) @ dollar #
              sha256_hexdigest (utf8_bytes (fst (token_hex 16 w) @ p))),
    w\<lparr>drawn := drawn w + 16\<rparr>)"
  by (simp add: hash_password_def encode_utf8_def list_ex_append token_hex_no_surrogate
      str_of_dollar snd_token_hex case_prod_beta)

lemma hash_password_Some:
  "salt \<noteq> [] \<Longrightarrow> hash_password p (Some salt) w =
   (if list_ex is_surrogate (salt @ p) then Inl UnicodeEncodeError
    else Inr (salt @ dollar # sha256_hexdigest (utf8_bytes (salt @ p))), w)"
  by (simp add: hash_password_def encode_utf8_def str_of_dollar)

lemma verify_derived:
  assumes "\<not> list_ex is_surrogate p"
  shows "verify_password p
      (fst (token_hex 16 w) @ dollar # sha256_hexdigest (utf8_bytes (fst (token_hex 16 w) @ p)))
    = Inr True"
  using assms
  by (simp add: verify_two_parts token_hex_no_dollar encode_utf8_def list_ex_append
      token_hex_no_surrogate)

text \<open>
  The one error \<open>verify_password\<close> lets through is the UnicodeEncodeError of its last
  line, on a stored string of exactly two parts.
\<close>

lemma verify_password_error:
  "verify_password p stored = Inl e \<Longrightarrow>
   e = UnicodeEncodeError \<and> length (split_str dollar stored) = 2"
  by (auto simp: verify_password_def unpack2_def encode_utf8_def split: list.splits if_splits)

lemma world0_salts:
  "fst (token_hex 16 world0) = str_of ''030a11181f262d343b424950575e656c''"
  "fst (token_hex 16 (world0\<lparr>drawn := 16\<rparr>)) = str_of ''737a81888f969da4abb2b9c0c7ced5dc''"
  by (simp_all add: token_hex_def token_bytes_def world0_def hexlify_def
      hex_digit_def upt_conv_Cons)

lemma world0_salts_differ:
  "fst (token_hex 16 world0) \<noteq> fst (token_hex 16 (world0\<lparr>drawn := 16\<rparr>))"
  unfolding world0_salts by (simp add: str_of_def)

lemma drawn_world0: "drawn world0 = 0"
  by (simp add: world0_def)

lemma surrogate_lone: "list_ex is_surrogate lone_surrogate"
  by (simp add: lone_surrogate_def is_surrogate_def)

section \<open>Two digests, computed\<close>





section \<open>Digest collisions\<close>

text \<open>
  Every digest is one of the finitely many strings of 64 characters, and there are
  infinitely many ASCII passwords: behind any salt, two different passwords that UTF-8
  encodes share a digest. None is known; this is why a statement on all pairs of
  different passwords has to speak of the digests.
\<close>

lemma finite_strs_of_length_64: "finite {s. \<exists>t :: string. s = str_of t \<and> length t = 64}"
proof -
  have "finite {t :: string. length t = 64}"
    using finite_lists_length_eq [of "UNIV :: char set" 64] by simp
  then have "finite (str_of ` {t :: string. length t = 64})"
    by (rule finite_imageI)
  moreover have "{s. \<exists>t :: string. s = str_of t \<and> length t = 64} = str_of ` {t. length t = 64}"
    by auto
  ultimately show ?thesis by simp
qed

lemma digest_collision_exists:
  "\<exists>p q. p \<noteq> q \<and> \<not> list_ex is_surrogate p \<and> \<not> list_ex is_surrogate q \<and>
     sha256_hexdigest (utf8_bytes (salt @ p)) = sha256_hexdigest (utf8_bytes (salt @ q))"
proof (rule ccontr)
  assume n: "\<not> ?thesis"
  let ?f = "\<lambda>t :: string. sha256_hexdigest (utf8_bytes (salt @ str_of t))"
  have "inj ?f"
  proof (rule injI)
    fix a b assume "?f a = ?f b"
    with n have "str_of a = str_of b"
      using no_surrogate_str_of by blast
    then show "a = b" by (simp add: str_of_inject)
  qed
  moreover have "range ?f \<subseteq> {s. \<exists>t :: string. s = str_of t \<and> length t = 64}"
    by (auto simp: sha256_hexdigest_def length_hexlify length_sha256)
  then have "finite (range ?f)"
    by (rule finite_subset [OF _ finite_strs_of_length_64])
  ultimately have "finite (UNIV :: string set)"
    by (rule finite_imageD [rotated])
  then show False
    using infinite_UNIV_listI by blast
qed

section \<open>The credential round trip\<close>

text \<open>
  C1, as stated, fails at the password \<open>"\ud800"\<close>: \<open>hash_password\<close> raises
  UnicodeEncodeError (after reading its salt), and there is no credential to verify.
\<close>

theorem derive_surrogate_password_raises:
  "hash_password lone_surrogate None world0 = (Inl UnicodeEncodeError, world0\<lparr>drawn := 16\<rparr>)"
  by (simp add: hash_password_None surrogate_lone drawn_world0)

text \<open>
  C1, amended. For every password \<open>p\<close> that holds no surrogate code point and every
  state of the random source, \<open>hash_password(p)\<close> returns a credential string (the salt
  being the 32 hexadecimal digits that \<open>secrets.token_hex(16)\<close> returns) that splits on
  \<open>$\<close> into exactly that salt and the digest of salt followed by \<open>p\<close>, and
  \<open>verify_password(p, ...)\<close> returns True on it.
\<close>

theorem derive_then_verify_true:
  assumes "\<not> list_ex is_surrogate p"
  shows "\<exists>c. fst (hash_password p None w) = Inr c
    \<and> split_str dollar c =
        [fst (token_hex 16 w), sha256_hexdigest (utf8_bytes (fst (token_hex 16 w) @ p))]
    \<and> verify_password p c = Inr True"
  using assms
  by (simp add: hash_password_None split_credential token_hex_no_dollar verify_derived)

theorem derive_then_verify_true_witness:
  "\<not> list_ex is_surrogate (str_of ''hunter2'')
   \<and> (\<exists>c. fst (hash_password (str_of ''hunter2'') None world0) = Inr c
    \<and> split_str dollar c =
        [fst (token_hex 16 world0),
         sha256_hexdigest (utf8_bytes (fst (token_hex 16 world0) @ str_of ''hunter2''))]
    \<and> verify_password (str_of ''hunter2'') c = Inr True)"
  using derive_then_verify_true [of "str_of ''hunter2''" world0] no_surrogate_str_of [of "''hunter2''"]
  by blast

text \<open>
  C2. For every password and every stored string whose split on \<open>$\<close> does not have
  exactly two parts, \<open>verify_password\<close> returns False: the ValueError of the unpacking
  is caught, and nothing else is raised.
\<close>

theorem verify_malformed_credential_false: "length (split_str dollar stored) \<noteq> 2 \<Longrightarrow> verify_password p stored = Inr False"
  by (rule verify_malformed)

text \<open>
  The instances: the empty string, a string without \<open>$\<close>, and a string with two, the
  last with a password that cannot be encoded.
\<close>

theorem verify_malformed_credential_false_witness:
  "(length (split_str dollar (str_of '''')) \<noteq> 2
      \<and> verify_password (str_of ''anything'') (str_of '''') = Inr False)
   \<and> (length (split_str dollar (str_of ''not-a-valid-format'')) \<noteq> 2
        \<and> verify_password (str_of ''anything'') (str_of ''not-a-valid-format'') = Inr False)
   \<and> (length (split_str dollar (str_of ''a$b$c'')) \<noteq> 2
        \<and> verify_password lone_surrogate (str_of ''a$b$c'') = Inr False)"
proof -
  have a: "length (split_str dollar (str_of '''')) \<noteq> 2"
    and b: "length (split_str dollar (str_of ''not-a-valid-format'')) \<noteq> 2"
    and c: "length (split_str dollar (str_of ''a$b$c'')) \<noteq> 2"
    by (simp_all add: str_of_def)
  from a b c
    verify_malformed_credential_false [OF a, of "str_of ''anything''"] verify_malformed_credential_false [OF b, of "str_of ''anything''"]
    verify_malformed_credential_false [OF c, of lone_surrogate]
  show ?thesis by blast
qed




text \<open>
  C7, as stated, fails at the password \<open>"\ud800"\<close>: two calls in a row from \<open>world0\<close>
  read different salts, and both raise UnicodeEncodeError.
\<close>

theorem distinct_salts_surrogate_password_raises:
  "fst (token_hex 16 world0)
     \<noteq> fst (token_hex 16 (snd (hash_password lone_surrogate None world0)))
   \<and> fst (hash_password lone_surrogate None world0) = Inl UnicodeEncodeError
   \<and> fst (hash_password lone_surrogate None (snd (hash_password lone_surrogate None world0)))
       = Inl UnicodeEncodeError"
  by (simp add: hash_password_None surrogate_lone drawn_world0 world0_salts_differ)

text \<open>
  C7, amended. For every password that holds no surrogate code point, two calls of
  \<open>hash_password\<close> without a salt whose random salts differ return different credential
  strings, whose parts before the \<open>$\<close> differ, and the password verifies against each
  of the two.
\<close>

theorem distinct_salts_distinct_credentials:
  assumes "\<not> list_ex is_surrogate p"
    and "fst (token_hex 16 w1) \<noteq> fst (token_hex 16 w2)"
  shows "\<exists>c1 c2. fst (hash_password p None w1) = Inr c1 \<and> fst (hash_password p None w2) = Inr c2
    \<and> c1 \<noteq> c2
    \<and> hd (split_str dollar c1) \<noteq> hd (split_str dollar c2)
    \<and> verify_password p c1 = Inr True
    \<and> verify_password p c2 = Inr True"
proof -
  let ?c = "\<lambda>w. fst (token_hex 16 w) @ dollar #
      sha256_hexdigest (utf8_bytes (fst (token_hex 16 w) @ p))"
  have h: "fst (hash_password p None w) = Inr (?c w)" for w
    using assms(1) by (simp add: hash_password_None)
  have s: "split_str dollar (?c w) =
      [fst (token_hex 16 w), sha256_hexdigest (utf8_bytes (fst (token_hex 16 w) @ p))]" for w
    by (simp add: split_credential token_hex_no_dollar)
  have hd_ne: "hd (split_str dollar (?c w1)) \<noteq> hd (split_str dollar (?c w2))"
    using assms(2) by (simp add: s)
  then have ne: "?c w1 \<noteq> ?c w2"
    by auto
  have v: "verify_password p (?c w) = Inr True" for w
    using assms(1) by (rule verify_derived)
  from h [of w1] h [of w2] ne hd_ne v [of w1] v [of w2] show ?thesis
    by blast
qed

text \<open>
  The instance: two calls in a row from \<open>world0\<close>, the second reading the sixteen bytes
  after those of the first.
\<close>

theorem distinct_salts_distinct_credentials_witness:
  "\<not> list_ex is_surrogate (str_of ''hunter2'')
   \<and> fst (token_hex 16 world0)
      \<noteq> fst (token_hex 16 (snd (hash_password (str_of ''hunter2'') None world0)))
   \<and> (\<exists>c1 c2. fst (hash_password (str_of ''hunter2'') None world0) = Inr c1
      \<and> fst (hash_password (str_of ''hunter2'') None
              (snd (hash_password (str_of ''hunter2'') None world0))) = Inr c2
      \<and> c1 \<noteq> c2
      \<and> hd (split_str dollar c1) \<noteq> hd (split_str dollar c2)
      \<and> verify_password (str_of ''hunter2'') c1 = Inr True
      \<and> verify_password (str_of ''hunter2'') c2 = Inr True)"
proof -
  have e: "\<not> list_ex is_surrogate (str_of ''hunter2'')"
    by (rule no_surrogate_str_of)
  have h: "fst (token_hex 16 world0)
      \<noteq> fst (token_hex 16 (snd (hash_password (str_of ''hunter2'') None world0)))"
    by (simp add: hash_password_None drawn_world0 world0_salts_differ)
  from e h distinct_salts_distinct_credentials [OF e h] show ?thesis by blast
qed

text \<open>
  C9, as stated, fails at the salt \<open>"$\ud800"\<close>: it contains \<open>$\<close>, and
  \<open>hash_password("hunter2", salt)\<close> raises UnicodeEncodeError.
\<close>

theorem salt_with_delimiter_surrogate_raises:
  "dollar \<in> set [dollar, 0xD800]
   \<and> fst (hash_password (str_of ''hunter2'') (Some [dollar, 0xD800]) world0)
       = Inl UnicodeEncodeError"
  by (simp add: hash_password_Some is_surrogate_def)

text \<open>
  C9, amended. For every password \<open>p\<close> and every explicit salt that contains \<open>$\<close>,
  when neither holds a surrogate code point, \<open>hash_password(p, salt)\<close> returns a string
  that splits into more than two parts, and \<open>verify_password\<close> returns False on it.
\<close>

theorem salt_with_delimiter_never_verifies:
  assumes "dollar \<in> set salt"
    and "\<not> list_ex is_surrogate (salt @ p)"
  shows "\<exists>c. fst (hash_password p (Some salt) w) = Inr c
    \<and> 2 < length (split_str dollar c)
    \<and> verify_password p c = Inr False"
proof -
  let ?c = "salt @ dollar # sha256_hexdigest (utf8_bytes (salt @ p))"
  from assms(1) have ne: "salt \<noteq> []" by auto
  have h: "fst (hash_password p (Some salt) w) = Inr ?c"
    using assms(2) by (simp add: hash_password_Some [OF ne])
  from assms(1) have "count_list salt dollar \<noteq> 0"
    by (simp add: count_list_0_iff)
  then have len: "2 < length (split_str dollar ?c)"
    by (simp add: length_split_str)
  then have "verify_password p ?c = Inr False"
    by (simp add: verify_malformed)
  with h len show ?thesis by blast
qed

theorem salt_with_delimiter_never_verifies_witness:
  "dollar \<in> set (str_of ''ab$cd'')
   \<and> \<not> list_ex is_surrogate (str_of ''ab$cd'' @ str_of ''hunter2'')
   \<and> (\<exists>c. fst (hash_password (str_of ''hunter2'') (Some (str_of ''ab$cd'')) world0) = Inr c
      \<and> 2 < length (split_str dollar c)
      \<and> verify_password (str_of ''hunter2'') c = Inr False)"
proof -
  have a: "dollar \<in> set (str_of ''ab$cd'')"
    by (simp add: dollar_in_str_of)
  have b: "\<not> list_ex is_surrogate (str_of ''ab$cd'' @ str_of ''hunter2'')"
    by (simp add: list_ex_append no_surrogate_str_of)
  from a b salt_with_delimiter_never_verifies [OF a b] show ?thesis by blast
qed

text \<open>
  C10. For every password, \<open>hash_password(p, "")\<close> does what \<open>hash_password(p)\<close> does:
  the empty salt is falsy, sixteen bytes are read from the random source, and the salt
  part of every string it returns is their 32 hexadecimal digits, never the empty
  string. It returns a string for every password that holds no surrogate code point.
\<close>

theorem empty_salt_replaced_by_random:
  "hash_password p (Some []) w = hash_password p None w
   \<and> snd (hash_password p (Some []) w) = w\<lparr>drawn := drawn w + 16\<rparr>
   \<and> length (fst (token_hex 16 w)) = 32
   \<and> (\<forall>c. fst (hash_password p (Some []) w) = Inr c \<longrightarrow>
        split_str dollar c =
          [fst (token_hex 16 w), sha256_hexdigest (utf8_bytes (fst (token_hex 16 w) @ p))])
   \<and> (\<not> list_ex is_surrogate p \<longrightarrow> (\<exists>c. fst (hash_password p (Some []) w) = Inr c))"
  unfolding hash_password_empty_salt
  by (auto simp: hash_password_None split_credential token_hex_no_dollar length_token_hex
      split: if_splits)

theorem empty_salt_replaced_by_random_witness:
  "\<exists>c. fst (hash_password (str_of ''hunter2'') (Some []) world0) = Inr c
     \<and> split_str dollar c =
          [fst (token_hex 16 world0),
           sha256_hexdigest (utf8_bytes (fst (token_hex 16 world0) @ str_of ''hunter2''))]
     \<and> length (fst (token_hex 16 world0)) = 32"
  using empty_salt_replaced_by_random [of "str_of ''hunter2''" world0] no_surrogate_str_of [of "''hunter2''"]
  by blast

section \<open>Signup and login\<close>

lemma signup_existing:
  "get_documents ''user'' [(''email'', Str (signup_request.email payload))] 1 w \<noteq> [] \<Longrightarrow>
   signup payload w = (Inl (HTTPException 400 ''Email already registered''), w)"
  by (simp add: signup_def)

lemma get_documents_nonempty_iff:
  "get_documents c [(k, v)] 1 w \<noteq> [] \<longleftrightarrow> (\<exists>d \<in> set (collections w c). d k = Some v)"
  by (auto simp: get_documents_def matches_def filter_empty_conv)

lemma signup_unencodable:
  assumes "get_documents ''user'' [(''email'', Str (signup_request.email payload))] 1 w = []"
    and "list_ex is_surrogate (signup_request.password payload)"
  shows "signup payload w = (Inl UnicodeEncodeError, w\<lparr>drawn := drawn w + 16\<rparr>)"
  using assms by (simp add: signup_def hash_password_None)

lemma signup_fresh:
  assumes "get_documents ''user'' [(''email'', Str (signup_request.email payload))] 1 w = []"
    and "fst (hash_password (signup_request.password payload) None w) = Inr c"
  shows "\<exists>tok. fst (signup payload w) =
           Inr \<lparr>user = (user_record payload c w)(''_id'' \<mapsto> Ident (next_id w),
                                                  ''password_hash'' := None),
                token = tok\<rparr>"
    and "collections (snd (signup payload w)) =
           (collections w)(''user'' := collections w ''user'' @ [user_record payload c w])"
    and "next_id (snd (signup payload w)) = Suc (next_id w)"
    and "drawn (snd (signup payload w)) = drawn w + 40"
  using assms
  by (simp_all add: signup_def Let_def create_document_def token_urlsafe_def token_bytes_def
      hash_password_None user_record_def utcnow_def case_prod_beta split: if_splits)

lemma signup_success_iff:
  "(\<exists>r. fst (signup payload w) = Inr r) \<longleftrightarrow>
   get_documents ''user'' [(''email'', Str (signup_request.email payload))] 1 w = []
   \<and> (\<exists>c. fst (hash_password (signup_request.password payload) None w) = Inr c)"
proof (cases "get_documents ''user'' [(''email'', Str (signup_request.email payload))] 1 w = []")
  case True
  show ?thesis
  proof (cases "list_ex is_surrogate (signup_request.password payload)")
    case s: True
    with signup_unencodable [OF True s] True show ?thesis
      by (simp add: hash_password_None)
  next
    case False
    then obtain c where c: "fst (hash_password (signup_request.password payload) None w) = Inr c"
      by (simp add: hash_password_None)
    with signup_fresh(1) [OF True c] True show ?thesis by blast
  qed
next
  case False
  with signup_existing [OF False] show ?thesis by simp
qed

lemma login_success:
  assumes "get_documents ''user'' [(''email'', Str (login_request.email payload))] 1 w = usr # rest"
    and "dict_get usr ''password_hash'' (Str []) = Str stored"
    and "verify_password (login_request.password payload) stored = Inr True"
  shows "\<exists>tok. fst (login payload w) = Inr \<lparr>user = usr(''password_hash'' := None), token = tok\<rparr>"
proof -
  have "(\<lambda>k. if k \<noteq> ''password_hash'' then usr k else None) = usr(''password_hash'' := None)"
    by (rule ext) simp
  with assms show ?thesis
    by (simp add: login_def Let_def split: prod.splits)
qed

lemma login_returns:
  assumes "fst (login payload w) = Inr r"
  shows "\<exists>usr \<in> set (collections w ''user''). user r = usr(''password_hash'' := None)"
proof -
  obtain usr rest where
    g: "get_documents ''user'' [(''email'', Str (login_request.email payload))] 1 w = usr # rest"
    using assms by (cases "get_documents ''user'' [(''email'', Str (login_request.email payload))] 1 w")
      (simp_all add: login_def)
  then have "usr \<in> set (take 1 (filter (matches [(''email'', Str (login_request.email payload))])
      (collections w ''user'')))"
    by (simp add: get_documents_def)
  then have mem: "usr \<in> set (collections w ''user'')"
    by (auto dest: in_set_takeD)
  have "(\<lambda>k. if k \<noteq> ''password_hash'' then usr k else None) = usr(''password_hash'' := None)"
    by (rule ext) simp
  with assms g have "user r = usr(''password_hash'' := None)"
    by (auto simp: login_def Let_def split: sum.splits pyval.splits if_splits prod.splits)
  with mem show ?thesis by blast
qed

lemma world0_no_documents: "get_documents c flt n world0 = []"
  by (simp add: get_documents_def world0_def)

lemma hunter2_derived:
  "fst (hash_password (signup_request.password signup0) None world0) =
   Inr (fst (token_hex 16 world0) @ dollar #
        sha256_hexdigest (utf8_bytes (fst (token_hex 16 world0) @ str_of ''hunter2'')))"
  by (simp add: signup0_def hash_password_None no_surrogate_str_of)

lemma signed_up_collections:
  "collections (snd (signup signup0 world0)) ''user'' = [user_record signup0 cred0 world0]"
  unfolding cred0_def
  by (simp add: signup_fresh(2) [OF world0_no_documents hunter2_derived]) (simp add: world0_def)

lemma signed_up_get_documents:
  "get_documents ''user'' [(''email'', Str (str_of ''a@b.com''))] 1 (snd (signup signup0 world0)) =
   [user_record signup0 cred0 world0]"
  unfolding get_documents_def signed_up_collections
  by (simp add: matches_def user_record_def signup0_def)

text \<open>
  C3. A login fails in the same way, with status 401 and the detail "Invalid credentials"
  and with the world untouched, when no user record matches the submitted email and when
  the first matching record holds a credential string that \<open>verify_password\<close> returns
  False on.
\<close>

theorem login_failure_indistinguishable:
  assumes "users = get_documents ''user'' [(''email'', Str (login_request.email payload))] 1 w"
    and "users = [] \<or>
         (\<exists>usr rest stored. users = usr # rest
            \<and> dict_get usr ''password_hash'' (Str []) = Str stored
            \<and> verify_password (login_request.password payload) stored = Inr False)"
  shows "login payload w = (Inl (HTTPException 401 ''Invalid credentials''), w)"
  using assms by (auto simp: login_def)

text \<open>
  The two causes at concrete inputs: the empty store of \<open>world0\<close>, and a store whose
  record for the email holds a credential the password does not verify against.
\<close>

theorem login_failure_indistinguishable_witness:
  "get_documents ''user'' [(''email'', Str (login_request.email login0))] 1 world0 = []
   \<and> login login0 world0 = (Inl (HTTPException 401 ''Invalid credentials''), world0)
   \<and> get_documents ''user'' [(''email'', Str (login_request.email login0))] 1 world_short_digest
       = [[''email'' \<mapsto> Str (str_of ''a@b.com''),
           ''password_hash'' \<mapsto> Str (str_of ''00ff$0123abcd'')]]
   \<and> verify_password (login_request.password login0) (str_of ''00ff$0123abcd'') = Inr False
   \<and> login login0 world_short_digest
       = (Inl (HTTPException 401 ''Invalid credentials''), world_short_digest)"
proof -
  have g0: "get_documents ''user'' [(''email'', Str (login_request.email login0))] 1 world0 = []"
    by (rule world0_no_documents)
  have g1: "get_documents ''user'' [(''email'', Str (login_request.email login0))] 1
        world_short_digest
      = [[''email'' \<mapsto> Str (str_of ''a@b.com''),
          ''password_hash'' \<mapsto> Str (str_of ''00ff$0123abcd'')]]"
    by (simp add: get_documents_def world_short_digest_def world0_def matches_def login0_def)
  have s: "split_str dollar (str_of ''00ff$0123abcd'') = [str_of ''00ff'', str_of ''0123abcd'']"
    by (simp add: str_of_def)
  have v: "verify_password (login_request.password login0) (str_of ''00ff$0123abcd'') = Inr False"
    by (simp add: verify_password_def s unpack2_def encode_utf8_def list_ex_append
        no_surrogate_str_of login0_def digest_length_mismatch length_str_of)
  have d: "dict_get [''email'' \<mapsto> Str (str_of ''a@b.com''),
        ''password_hash'' \<mapsto> Str (str_of ''00ff$0123abcd'')]
      ''password_hash'' (Str []) = Str (str_of ''00ff$0123abcd'')"
    by (simp add: dict_get_def)
  have l0: "login login0 world0 = (Inl (HTTPException 401 ''Invalid credentials''), world0)"
    using login_failure_indistinguishable [OF g0 [symmetric]] by simp
  have l1: "login login0 world_short_digest
      = (Inl (HTTPException 401 ''Invalid credentials''), world_short_digest)"
    using login_failure_indistinguishable [OF g1 [symmetric]] d v by blast
  from g0 g1 v l0 l1 show ?thesis by blast
qed

text \<open>
  C4. The record a successful signup returns is the created document with its new
  \<open>_id\<close> and without the key \<open>password_hash\<close>; the record a successful login returns is
  a stored user record without the key \<open>password_hash\<close>.
\<close>

theorem password_hash_never_returned:
  "(fst (signup sp w) = Inr r \<longrightarrow>
      user r ''password_hash'' = None
      \<and> (\<exists>c. fst (hash_password (signup_request.password sp) None w) = Inr c
            \<and> user r = (user_record sp c w)(''_id'' \<mapsto> Ident (next_id w),
                                             ''password_hash'' := None)))
   \<and> (fst (login lp w) = Inr r' \<longrightarrow>
      user r' ''password_hash'' = None
      \<and> (\<exists>usr \<in> set (collections w ''user''). user r' = usr(''password_hash'' := None)))"
proof
  show "fst (signup sp w) = Inr r \<longrightarrow>
      user r ''password_hash'' = None
      \<and> (\<exists>c. fst (hash_password (signup_request.password sp) None w) = Inr c
            \<and> user r = (user_record sp c w)(''_id'' \<mapsto> Ident (next_id w),
                                             ''password_hash'' := None))"
  proof
    assume a: "fst (signup sp w) = Inr r"
    then obtain c where
      g: "get_documents ''user'' [(''email'', Str (signup_request.email sp))] 1 w = []"
      and c: "fst (hash_password (signup_request.password sp) None w) = Inr c"
      using signup_success_iff [of sp w] by blast
    from signup_fresh(1) [OF g c] a
    have "user r = (user_record sp c w)(''_id'' \<mapsto> Ident (next_id w), ''password_hash'' := None)"
      by auto
    with c show "user r ''password_hash'' = None
      \<and> (\<exists>c. fst (hash_password (signup_request.password sp) None w) = Inr c
            \<and> user r = (user_record sp c w)(''_id'' \<mapsto> Ident (next_id w),
                                             ''password_hash'' := None))"
      by auto
  qed
  show "fst (login lp w) = Inr r' \<longrightarrow>
      user r' ''password_hash'' = None
      \<and> (\<exists>usr \<in> set (collections w ''user''). user r' = usr(''password_hash'' := None))"
  proof
    assume a: "fst (login lp w) = Inr r'"
    from login_returns [OF a]
    show "user r' ''password_hash'' = None
      \<and> (\<exists>usr \<in> set (collections w ''user''). user r' = usr(''password_hash'' := None))"
      by auto
  qed
qed

text \<open>
  End to end: the signup of \<open>signup0\<close> in \<open>world0\<close> succeeds, the login with the same
  credentials in the world it leaves succeeds, and neither returned record has the key.
\<close>

theorem password_hash_never_returned_witness:
  "(case fst (signup signup0 world0) of
      Inl e \<Rightarrow> False
    | Inr r \<Rightarrow> user r ''password_hash'' = None)
   \<and> (case fst (login login0 (snd (signup signup0 world0))) of
      Inl e \<Rightarrow> False
    | Inr r \<Rightarrow> user r ''password_hash'' = None)"
proof -
  obtain r1 where s: "fst (signup signup0 world0) = Inr r1"
    using signup_fresh(1) [OF world0_no_documents hunter2_derived] by blast
  have "verify_password (login_request.password login0) cred0 = Inr True"
    unfolding cred0_def by (simp add: login0_def verify_derived no_surrogate_str_of)
  moreover have "dict_get (user_record signup0 cred0 world0) ''password_hash'' (Str [])
      = Str cred0"
    by (simp add: dict_get_def user_record_def)
  moreover have "get_documents ''user'' [(''email'', Str (login_request.email login0))] 1
      (snd (signup signup0 world0)) = [user_record signup0 cred0 world0]"
    by (simp add: login0_def signed_up_get_documents del: One_nat_def)
  ultimately obtain r2 where l: "fst (login login0 (snd (signup signup0 world0))) = Inr r2"
    using login_success by blast
  from s have "user r1 ''password_hash'' = None"
    using password_hash_never_returned [of signup0 world0 r1 login0 r2] by blast
  moreover from l have "user r2 ''password_hash'' = None"
    using password_hash_never_returned [of signup0 "snd (signup signup0 world0)" r1 login0 r2]
    by blast
  ultimately show ?thesis
    by (simp add: s l)
qed

text \<open>
  C5. A signup whose email is the email of a record already in the user collection
  fails with status 400, and leaves the world as it was: no document is created, no
  random byte is read.
\<close>

theorem signup_duplicate_email_rejected:
  assumes "\<exists>d \<in> set (collections w ''user''). d ''email'' = Some (Str (signup_request.email payload))"
  shows "signup payload w = (Inl (HTTPException 400 ''Email already registered''), w)"
proof -
  from assms
  have "get_documents ''user'' [(''email'', Str (signup_request.email payload))] 1 w \<noteq> []"
    by (rule get_documents_nonempty_iff [THEN iffD2])
  then show ?thesis by (rule signup_existing)
qed

text \<open>The instance: the same signup a second time, in the world the first one leaves.\<close>

theorem signup_duplicate_email_rejected_witness:
  "(\<exists>d \<in> set (collections (snd (signup signup0 world0)) ''user'').
      d ''email'' = Some (Str (signup_request.email signup0)))
   \<and> signup signup0 (snd (signup signup0 world0))
       = (Inl (HTTPException 400 ''Email already registered''), snd (signup signup0 world0))"
proof -
  have h: "\<exists>d \<in> set (collections (snd (signup signup0 world0)) ''user'').
      d ''email'' = Some (Str (signup_request.email signup0))"
    by (simp add: signed_up_collections user_record_def)
  from h signup_duplicate_email_rejected [OF h] show ?thesis by blast
qed

text \<open>
  C8. A successful signup leaves every collection as it was but \<open>user\<close>, which has
  exactly one record more, at its end: the submitted name and email, the credential
  derived from the submitted password in \<open>password_hash\<close>, \<open>is_active\<close> True, and the
  reading of the clock in \<open>created_at\<close>.
\<close>

theorem signup_persists_user_record:
  assumes "fst (signup payload w) = Inr r"
  shows "\<exists>c. fst (hash_password (signup_request.password payload) None w) = Inr c
    \<and> collections (snd (signup payload w)) =
           (collections w)(''user'' := collections w ''user'' @
             [[''name'' \<mapsto> Str (signup_request.name payload),
               ''email'' \<mapsto> Str (signup_request.email payload),
               ''password_hash'' \<mapsto> Str c,
               ''is_active'' \<mapsto> Bool True,
               ''created_at'' \<mapsto> Datetime (clock w)]])"
proof -
  from assms obtain c where
    g: "get_documents ''user'' [(''email'', Str (signup_request.email payload))] 1 w = []"
    and c: "fst (hash_password (signup_request.password payload) None w) = Inr c"
    using signup_success_iff [of payload w] by blast
  from signup_fresh(2) [OF g c] c show ?thesis
    by (simp add: user_record_def utcnow_def)
qed

theorem signup_persists_user_record_witness:
  "(\<exists>r. fst (signup signup0 world0) = Inr r)
   \<and> (\<exists>c. fst (hash_password (str_of ''hunter2'') None world0) = Inr c
     \<and> collections (snd (signup signup0 world0)) ''user'' =
       [[''name'' \<mapsto> Str (str_of ''Ann''), ''email'' \<mapsto> Str (str_of ''a@b.com''),
         ''password_hash'' \<mapsto> Str c,
         ''is_active'' \<mapsto> Bool True, ''created_at'' \<mapsto> Datetime 1700000000]])
   \<and> collections (snd (signup signup0 world0)) ''blogpost'' = []"
proof -
  obtain r where s: "fst (signup signup0 world0) = Inr r"
    using signup_fresh(1) [OF world0_no_documents hunter2_derived] by blast
  from signup_persists_user_record [OF s] s show ?thesis
    by (auto simp: signup0_def world0_def)
qed

end
